theory Spec2Isabelle
  imports Main "HOL-Library.Multiset" "HOL-Library.AList"
begin

section \<open>Python values, exceptions and the built-ins the sources call\<close>

text \<open>
  An exception is its class and its message (\<open>str(e)\<close>). The type ranges over instances
  of \<open>Exception\<close>, which is what every \<open>except Exception\<close> clause of the sources catches;
  \<open>KeyboardInterrupt\<close>, \<open>SystemExit\<close> and task cancellation are outside the model.
  A computation that may raise returns \<open>pyexn + 'a\<close>, with \<open>Inl\<close> for the raise.
\<close>

datatype exn_class =
    ValueError
  | OverflowError
  | AttributeError
  | BigdataClientRateLimitError
  | OtherException string

datatype pyexn = PyExn exn_class string

fun exn_class_of :: "pyexn \<Rightarrow> exn_class" where
  "exn_class_of (PyExn c m) = c"

fun message :: "pyexn \<Rightarrow> string" where
  "message (PyExn c m) = m"

text \<open>
  A Python \<open>str\<close> is a \<open>string\<close> whose characters are read as the code points 0..255
  (ASCII and the Latin-1 block). A float is a sign, a mantissa and a binary exponent
  (the value \<open>\<plusminus> m * 2^e\<close>, which covers every IEEE double), or one of the three
  non-finite values.
\<close>

datatype pyfloat = Finite bool nat int | PosInf | NegInf | NaN

datatype pyval =
    PNone
  | PBool bool
  | PInt int
  | PFloat pyfloat
  | PStr string
  | PList "pyval list"
  | PDict "(string \<times> pyval) list"
  | PObject string

text \<open>\<open>int(x)\<close> for a float: truncation towards zero; NaN and the infinities raise.\<close>

fun int_of_float :: "pyfloat \<Rightarrow> pyexn + int" where
  "int_of_float (Finite neg m e) =
     (let a = (if 0 \<le> e then int m * 2 ^ nat e else int m div 2 ^ nat (- e))
      in Inr (if neg then - a else a))"
| "int_of_float PosInf = Inl (PyExn OverflowError ''cannot convert float infinity to integer'')"
| "int_of_float NegInf = Inl (PyExn OverflowError ''cannot convert float infinity to integer'')"
| "int_of_float NaN = Inl (PyExn ValueError ''cannot convert float NaN to integer'')"

fun bit_length :: "nat \<Rightarrow> nat" where
  "bit_length n = (if n = 0 then 0 else Suc (bit_length (n div 2)))"

text \<open>
  \<open>float(n)\<close> for an int: exact up to 53 bits, rounded half-to-even beyond, and
  \<open>OverflowError\<close> when the rounded value needs more than 1024 bits.
\<close>

definition float_of_int :: "int \<Rightarrow> pyexn + pyfloat" where
  "float_of_int n =
     (let a = nat \<bar>n\<bar>; b = bit_length a in
      if b \<le> 53 then Inr (Finite (n < 0) a 0)
      else
        let sh = b - 53; q = a div 2 ^ sh; r = a mod 2 ^ sh; half = 2 ^ (sh - 1);
            q' = (if half < r \<or> (r = half \<and> odd q) then q + 1 else q)
        in if 1024 < bit_length (q' * 2 ^ sh)
           then Inl (PyExn OverflowError ''int too large to convert to float'')
           else Inr (Finite (n < 0) q' (int sh)))"

text \<open>
  \<open>str.isdigit()\<close>: the string is not empty and every character is a digit. Below
  code point 256 the digits are \<open>0\<close>..\<open>9\<close> and the superscripts U+00B2, U+00B3 and
  U+00B9. \<open>int(s)\<close> accepts only the decimal digits among them.
\<close>

definition is_decimal_char :: "char \<Rightarrow> bool" where
  "is_decimal_char c = (let n = (of_char c :: nat) in 48 \<le> n \<and> n \<le> 57)"

definition is_digit_char :: "char \<Rightarrow> bool" where
  "is_digit_char c =
     (let n = (of_char c :: nat) in (48 \<le> n \<and> n \<le> 57) \<or> n = 178 \<or> n = 179 \<or> n = 185)"

definition isdigit :: "string \<Rightarrow> bool" where
  "isdigit s = (s \<noteq> [] \<and> list_all is_digit_char s)"

definition digits_value :: "string \<Rightarrow> int" where
  "digits_value s = foldl (\<lambda>acc c. 10 * acc + (int (of_char c) - 48)) 0 s"

text \<open>
  \<open>int(s)\<close> on a string for which \<open>isdigit\<close> holds, the only strings the source passes
  to it (no sign, no blank, no underscore can occur). The conversion counts the decimal
  digits the string starts with and refuses more than \<open>sys.int_max_str_digits\<close> of
  them (4300 unless reconfigured) before it looks at the rest of the string.
\<close>

definition int_max_str_digits :: nat where
  "int_max_str_digits = 4300"

definition int_of_str :: "string \<Rightarrow> pyexn + int" where
  "int_of_str s =
     (if int_max_str_digits < length (takeWhile is_decimal_char s)
      then Inl (PyExn ValueError ''Exceeds the limit (4300 digits) for integer string conversion'')
      else if s \<noteq> [] \<and> list_all is_decimal_char s then Inr (digits_value s)
      else Inl (PyExn ValueError ''invalid literal for int() with base 10''))"

section \<open>graph.py: cleaning the tool parameters\<close>

definition list_keys :: "string list" where
  "list_keys = [''transcript_types'', ''section_metadata'', ''filing_types'',
                ''document_types'', ''sources'']"

definition numeric_keys :: "string list" where
  "numeric_keys = [''fiscal_year'', ''fiscal_quarter'', ''max_results'']"

definition float_keys :: "string list" where
  "float_keys = [''rerank_threshold'']"

definition string_keys :: "string list" where
  "string_keys = [''search_type'', ''date_range'']"

definition dict_keys :: "string list" where
  "dict_keys = [''filters'']"

text \<open>
  The body of the loop of \<open>_clean_tool_parameters\<close> for one item: \<open>Inr None\<close> when
  nothing is stored for the key (a \<open>continue\<close>, or an \<open>if\<close> chain that falls through),
  \<open>Inr (Some v)\<close> for \<open>cleaned[key] = v\<close>, \<open>Inl e\<close> when a conversion raises.
  \<open>bool\<close> is a subclass of \<open>int\<close>, so \<open>isinstance(value, (int, float))\<close> holds for a
  boolean. The parser of \<open>float(s)\<close> on a string is the parameter \<open>float_of_str\<close>
  (\<open>None\<close> is its \<open>ValueError\<close>).
\<close>

definition clean_value :: "(string \<Rightarrow> pyfloat option) \<Rightarrow> string \<Rightarrow> pyval \<Rightarrow> pyexn + pyval option" where
  "clean_value float_of_str key val =
     (if val = PNone then Inr None
      else if key \<in> set list_keys then
        (case val of
           PBool b \<Rightarrow> Inr None
         | PStr s \<Rightarrow> Inr (Some (PList [PStr s]))
         | PList xs \<Rightarrow> Inr (Some (PList xs))
         | _ \<Rightarrow> Inr None)
      else if key \<in> set numeric_keys then
        (case val of
           PBool b \<Rightarrow> Inr (Some (PInt (if b then 1 else 0)))
         | PInt n \<Rightarrow> Inr (Some (PInt n))
         | PFloat x \<Rightarrow> (case int_of_float x of Inl e \<Rightarrow> Inl e | Inr n \<Rightarrow> Inr (Some (PInt n)))
         | PStr s \<Rightarrow>
             (if isdigit s
              then (case int_of_str s of Inl e \<Rightarrow> Inl e | Inr n \<Rightarrow> Inr (Some (PInt n)))
              else Inr None)
         | _ \<Rightarrow> Inr None)
      else if key \<in> set float_keys then
        (case val of
           PBool b \<Rightarrow>
             (case float_of_int (if b then 1 else 0) of
                Inl e \<Rightarrow> Inl e | Inr x \<Rightarrow> Inr (Some (PFloat x)))
         | PInt n \<Rightarrow> (case float_of_int n of Inl e \<Rightarrow> Inl e | Inr x \<Rightarrow> Inr (Some (PFloat x)))
         | PFloat x \<Rightarrow> Inr (Some (PFloat x))
         | PStr s \<Rightarrow> (case float_of_str s of None \<Rightarrow> Inr None | Some x \<Rightarrow> Inr (Some (PFloat x)))
         | _ \<Rightarrow> Inr None)
      else if key \<in> set string_keys then
        (case val of PStr s \<Rightarrow> Inr (Some (PStr s)) | _ \<Rightarrow> Inr None)
      else if key \<in> set dict_keys then
        (case val of PDict d \<Rightarrow> Inr (Some (PDict d)) | _ \<Rightarrow> Inr None)
      else
        (case val of PObject c \<Rightarrow> Inr None | _ \<Rightarrow> Inr (Some val)))"

text \<open>
  The loop over \<open>params.items()\<close>, in the dictionary's order; \<open>cleaned[key] = v\<close> is
  \<open>AList.update\<close> (a new key is appended). A raise ends the loop.
\<close>

fun clean_loop ::
  "(string \<Rightarrow> pyfloat option) \<Rightarrow> (string \<times> pyval) list \<Rightarrow> (string \<times> pyval) list
    \<Rightarrow> pyexn + (string \<times> pyval) list" where
  "clean_loop float_of_str [] cleaned = Inr cleaned"
| "clean_loop float_of_str ((key, val) # rest) cleaned =
     (case clean_value float_of_str key val of
        Inl e \<Rightarrow> Inl e
      | Inr None \<Rightarrow> clean_loop float_of_str rest cleaned
      | Inr (Some v) \<Rightarrow> clean_loop float_of_str rest (AList.update key v cleaned))"

definition clean_tool_parameters ::
  "(string \<Rightarrow> pyfloat option) \<Rightarrow> (string \<times> pyval) list \<Rightarrow> string
    \<Rightarrow> pyexn + (string \<times> pyval) list" where
  "clean_tool_parameters float_of_str params tool_type = clean_loop float_of_str params []"

section \<open>utils.py: the shared vendor client\<close>

text \<open>
  A client object is identified by the number of the constructor call that built it.
  The module state is the global \<open>_bigdata_client\<close>, together with the number of calls
  of the constructor \<open>Bigdata(username, password)\<close> made so far and the clients they
  built (newest first). The lock around the bodies of \<open>get_bigdata_client\<close> and
  \<open>reset_bigdata_client\<close> makes each of them one step on this state.
\<close>

datatype client = Client nat

record module_state =
  bigdata_client :: "client option"
  ctor_calls :: nat
  built :: "client list"

record env =
  BIGDATA_AVAILABLE :: bool
  BIGDATA_USERNAME :: "string option"
  BIGDATA_PASSWORD :: "string option"

definition not_available :: pyexn where
  "not_available = PyExn ValueError
     ''bigdata_client not available. Please install it with: pip install bigdata-client''"

definition no_credentials :: pyexn where
  "no_credentials = PyExn ValueError
     ''BIGDATA_USERNAME and BIGDATA_PASSWORD environment variables must be set''"

text \<open>
  The vendor's constructor is the parameter \<open>ctor\<close>: \<open>ctor n u p\<close> is the exception the
  \<open>n\<close>-th constructor call raises on the credentials \<open>u\<close>, \<open>p\<close>, or \<open>None\<close> when it
  returns a client. \<open>not username\<close> holds for an unset and for an empty variable.
\<close>

definition get_bigdata_client ::
  "(nat \<Rightarrow> string \<Rightarrow> string \<Rightarrow> pyexn option) \<Rightarrow> env \<Rightarrow> module_state
    \<Rightarrow> (pyexn + client) \<times> module_state" where
  "get_bigdata_client ctor ev st =
     (if \<not> BIGDATA_AVAILABLE ev then (Inl not_available, st)
      else
        (case bigdata_client st of
           Some c \<Rightarrow> (Inr c, st)
         | None \<Rightarrow>
             (case (BIGDATA_USERNAME ev, BIGDATA_PASSWORD ev) of
                (Some username, Some password) \<Rightarrow>
                  (if username = [] \<or> password = [] then (Inl no_credentials, st)
                   else
                     (case ctor (ctor_calls st) username password of
                        Some e \<Rightarrow> (Inl e, st\<lparr>ctor_calls := Suc (ctor_calls st)\<rparr>)
                      | None \<Rightarrow>
                          (Inr (Client (ctor_calls st)),
                           st\<lparr>bigdata_client := Some (Client (ctor_calls st)),
                              ctor_calls := Suc (ctor_calls st),
                              built := Client (ctor_calls st) # built st\<rparr>)))
              | _ \<Rightarrow> (Inl no_credentials, st))))"

definition reset_bigdata_client :: "module_state \<Rightarrow> module_state" where
  "reset_bigdata_client st = st\<lparr>bigdata_client := None\<rparr>"

text \<open>A sequence of calls of the two functions, with what each \<open>get\<close> returned.\<close>

datatype client_op = Get | Reset

fun run_ops ::
  "(nat \<Rightarrow> string \<Rightarrow> string \<Rightarrow> pyexn option) \<Rightarrow> env \<Rightarrow> client_op list \<Rightarrow> module_state
    \<Rightarrow> (pyexn + client) list \<times> module_state" where
  "run_ops ctor ev [] st = ([], st)"
| "run_ops ctor ev (Get # ops) st =
     (case get_bigdata_client ctor ev st of
        (r, st') \<Rightarrow> (case run_ops ctor ev ops st' of (rs, st'') \<Rightarrow> (r # rs, st'')))"
| "run_ops ctor ev (Reset # ops) st = run_ops ctor ev ops (reset_bigdata_client st)"

text \<open>
  The states the module can be in: every client built so far has a number below the
  next constructor call's, and the singleton, when set, is one of them.
\<close>

fun client_id :: "client \<Rightarrow> nat" where
  "client_id (Client n) = n"

definition client_inv :: "module_state \<Rightarrow> bool" where
  "client_inv st =
     (list_all (\<lambda>c. client_id c < ctor_calls st) (built st) \<and>
      (case bigdata_client st of None \<Rightarrow> True | Some c \<Rightarrow> c \<in> set (built st)))"

definition initial_state :: module_state where
  "initial_state = \<lparr>bigdata_client = None, ctor_calls = 0, built = []\<rparr>"

section \<open>utils.py: date ranges\<close>

datatype RollingDateRange =
    TODAY | YESTERDAY | THIS_WEEK | LAST_WEEK | LAST_SEVEN_DAYS | LAST_THIRTY_DAYS
  | LAST_NINETY_DAYS | YEAR_TO_DATE | LAST_YEAR

datatype date_range_obj = Rolling RollingDateRange | Absolute string string

definition rolling_ranges :: "(string \<times> RollingDateRange) list" where
  "rolling_ranges =
     [(''today'', TODAY),
      (''yesterday'', YESTERDAY),
      (''this_week'', THIS_WEEK),
      (''last_week'', LAST_WEEK),
      (''last_7_days'', LAST_SEVEN_DAYS),
      (''last_month'', LAST_THIRTY_DAYS),
      (''last_30_days'', LAST_THIRTY_DAYS),
      (''last_90_days'', LAST_NINETY_DAYS),
      (''year_to_date'', YEAR_TO_DATE),
      (''last_year'', LAST_YEAR)]"

text \<open>\<open>s.split(sep)\<close> on a one-character separator, and \<open>s.strip()\<close>.\<close>

fun split_on :: "char \<Rightarrow> string \<Rightarrow> string list" where
  "split_on sep [] = [[]]"
| "split_on sep (c # cs) =
     (if c = sep then [] # split_on sep cs
      else (case split_on sep cs of [] \<Rightarrow> [[c]] | w # ws \<Rightarrow> (c # w) # ws))"

definition is_space :: "char \<Rightarrow> bool" where
  "is_space c =
     (let n = (of_char c :: nat)
      in (9 \<le> n \<and> n \<le> 13) \<or> (28 \<le> n \<and> n \<le> 32) \<or> n = 133 \<or> n = 160)"

definition strip :: "string \<Rightarrow> string" where
  "strip s = rev (dropWhile is_space (rev (dropWhile is_space s)))"

text \<open>
  Modelled from the spec: the vendor's constructor \<open>AbsoluteDateRange\<close>
  (\<open>bigdata_client.daterange\<close>) is not among the sources. Following the docstring and
  the comments of \<open>_parse_date_range\<close>, it builds the range from two timestamps and
  raises \<open>ValueError\<close> for an invalid date format; which timestamps it accepts is the
  parameter \<open>valid\<close>.
\<close>

definition AbsoluteDateRange :: "(string \<Rightarrow> bool) \<Rightarrow> string \<Rightarrow> string \<Rightarrow> pyexn + date_range_obj" where
  "AbsoluteDateRange valid start_ts end_ts =
     (if valid start_ts \<and> valid end_ts then Inr (Absolute start_ts end_ts)
      else Inl (PyExn ValueError ''invalid date format''))"

text \<open>
  \<open>_parse_date_range\<close>. Unpacking \<open>split(",")\<close> into two names raises \<open>ValueError\<close>
  unless the list has two elements; the \<open>except ValueError\<close> clause makes that, and a
  \<open>ValueError\<close> of the constructor, the result \<open>None\<close>.
\<close>

definition parse_date_range :: "(string \<Rightarrow> bool) \<Rightarrow> string option \<Rightarrow> pyexn + date_range_obj option" where
  "parse_date_range valid dr =
     (case dr of
        None \<Rightarrow> Inr None
      | Some d \<Rightarrow>
          if d = [] then Inr None
          else
            (case map_of rolling_ranges d of
               Some r \<Rightarrow> Inr (Some (Rolling r))
             | None \<Rightarrow>
                 if CHR '','' \<in> set d then
                   (case split_on CHR '','' d of
                      [start_date, end_date] \<Rightarrow>
                        (case AbsoluteDateRange valid (strip start_date @ ''T00:00:00'')
                                (strip end_date @ ''T23:59:59'') of
                           Inr r \<Rightarrow> Inr (Some r)
                         | Inl e \<Rightarrow> if exn_class_of e = ValueError then Inr None else Inl e)
                    | _ \<Rightarrow> Inr None)
                 else Inr None))"

section \<open>utils.py: formatting and the search functions\<close>

text \<open>
  A vendor object is the list of its attributes. A document has, besides its plain
  attributes, the attribute \<open>chunks\<close> (absent: \<open>None\<close>, and reading it raises
  \<open>AttributeError\<close>) and the attribute \<open>source\<close> (absent: \<open>None\<close>).
\<close>

type_synonym pyobj = "(string \<times> pyval) list"






text \<open>
  The handler shared by the five search functions:
  \<open>error_str = str(e).lower()\<close>, the test
  \<open>any(auth_error in error_str for auth_error in [...])\<close>, and the reset.
  \<open>lower\<close> is \<open>str.lower()\<close> on the code points 0..255.
\<close>

definition lower_char :: "char \<Rightarrow> char" where
  "lower_char c =
     (let n = (of_char c :: nat)
      in if (65 \<le> n \<and> n \<le> 90) \<or> (192 \<le> n \<and> n \<le> 222 \<and> n \<noteq> 215)
         then char_of (n + 32) else c)"

definition lower :: "string \<Rightarrow> string" where
  "lower s = map lower_char s"

fun starts_with :: "string \<Rightarrow> string \<Rightarrow> bool" where
  "starts_with [] s = True"
| "starts_with (p # ps) [] = False"
| "starts_with (p # ps) (c # cs) = (p = c \<and> starts_with ps cs)"

fun contains :: "string \<Rightarrow> string \<Rightarrow> bool" where
  "contains sub [] = (sub = [])"
| "contains sub (c # cs) = (starts_with sub (c # cs) \<or> contains sub cs)"

definition auth_errors :: "string list" where
  "auth_errors = [''authentication'', ''unauthorized'', ''token'', ''jwt'', ''login'']"

definition is_auth_error :: "pyexn \<Rightarrow> bool" where
  "is_auth_error e = (let error_str = lower (message e)
                      in list_ex (\<lambda>auth_error. contains auth_error error_str) auth_errors)"








text \<open>The query that \<open>execute_news_search\<close> builds, and its call of the vendor.\<close>

datatype query_expr =
    Similarity string
  | Keyword string
  | Entity string
  | Source string
  | Or query_expr query_expr
  | And query_expr query_expr













definition any_auth_error :: "(string \<times> pyexn) list \<Rightarrow> bool" where
  "any_auth_error errs = list_ex (\<lambda>(q, e). is_auth_error e) errs"



section \<open>how_to_guides: the batch upload and download scripts\<close>

definition UPLOAD_DONE :: string where "UPLOAD_DONE = ''UPLOAD_DONE''"
definition UPLOAD_ERROR :: string where "UPLOAD_ERROR = ''UPLOAD_ERROR''"
definition DOWNLOAD_DONE :: string where "DOWNLOAD_DONE = ''DOWNLOAD_DONE''"
definition DOWNLOAD_ERROR :: string where "DOWNLOAD_ERROR = ''DOWNLOAD_ERROR''"

definition max_try :: nat where "max_try = 5"

text \<open>
  What a worker function did besides returning: the vendor calls it made, the
  arguments of its \<open>time.sleep\<close> calls in order, and the warnings it logged. A call
  of \<open>logging\<close> returns: the module handles what its handlers raise
  (\<open>Handler.handleError\<close>), and the messages are strings already formatted.
\<close>

record effects =
  calls :: nat
  slept :: "nat list"
  warnings :: "(nat \<times> string) list"

definition no_effects :: effects where
  "no_effects = \<lparr>calls = 0, slept = [], warnings = []\<rparr>"

text \<open>
  \<open>upload_file\<close>. \<open>upload_from_disk attempt file_path\<close> is the vendor call
  \<open>bigdata.uploads.upload_from_disk(file_path, skip_metadata=True)\<close> made while the
  counter has the value \<open>attempt\<close>: it returns the id of the file or raises. Only
  \<open>BigdataClientRateLimitError\<close> is caught; any other exception leaves the function.
\<close>

function upload_loop ::
  "(nat \<Rightarrow> string \<Rightarrow> pyexn + string) \<Rightarrow> string \<Rightarrow> nat \<Rightarrow> effects
    \<Rightarrow> (pyexn + string \<times> string \<times> string) \<times> effects" where
  "upload_loop upload_from_disk file_path attempt fx =
     (if attempt < max_try then
        (case upload_from_disk attempt file_path of
           Inr file_id \<Rightarrow> (Inr (file_path, file_id, UPLOAD_DONE), fx\<lparr>calls := Suc (calls fx)\<rparr>)
         | Inl e \<Rightarrow>
             if exn_class_of e = BigdataClientRateLimitError then
               upload_loop upload_from_disk file_path (Suc attempt)
                 (fx\<lparr>calls := Suc (calls fx),
                     slept := slept fx @ [min (2 ^ Suc attempt) 10],
                     warnings := warnings fx @ [(Suc attempt, file_path)]\<rparr>)
             else (Inl e, fx\<lparr>calls := Suc (calls fx)\<rparr>))
      else (Inr (file_path, [], UPLOAD_ERROR), fx))"
  by pat_completeness auto
termination
  by (relation "measure (\<lambda>(u, p, attempt, fx). max_try - attempt)") auto

declare upload_loop.simps [simp del]

definition upload_file ::
  "(nat \<Rightarrow> string \<Rightarrow> pyexn + string) \<Rightarrow> string
    \<Rightarrow> (pyexn + string \<times> string \<times> string) \<times> effects" where
  "upload_file upload_from_disk file_path = upload_loop upload_from_disk file_path 0 no_effects"

text \<open>
  The file name \<open>download_analytics_file\<close> computes: \<open>os.path.basename\<close>, the dots
  replaced, and \<open>os.path.join\<close> with the output directory.
\<close>

definition basename :: "string \<Rightarrow> string" where
  "basename p = rev (takeWhile (\<lambda>c. c \<noteq> CHR ''/'') (rev p))"

definition path_join :: "string \<Rightarrow> string \<Rightarrow> string" where
  "path_join a b =
     (if b \<noteq> [] \<and> hd b = CHR ''/'' then b
      else if a = [] \<or> last a = CHR ''/'' then a @ b
      else a @ ''/'' @ b)"

definition analytics_filename :: "string \<Rightarrow> string \<Rightarrow> string" where
  "analytics_filename output_directory absolute_path_filename =
     path_join output_directory
       (map (\<lambda>c. if c = CHR ''.'' then CHR ''_'' else c) (basename absolute_path_filename)
        @ ''_analytics.json'')"

text \<open>
  \<open>download_analytics_file\<close>. \<open>download attempt file_id timeout filename\<close> is the body of
  the \<open>try\<close> (looking the file up, waiting for its analysis, downloading the analytics)
  run while the counter has the value \<open>attempt\<close>: \<open>None\<close> when it completes, or the
  exception it raises. Every exception is caught.
\<close>

function download_loop ::
  "(nat \<Rightarrow> string \<Rightarrow> int \<Rightarrow> string \<Rightarrow> pyexn option) \<Rightarrow> int \<Rightarrow> string \<Rightarrow> string \<Rightarrow> string
    \<Rightarrow> nat \<Rightarrow> effects \<Rightarrow> (pyexn + string \<times> string) \<times> effects" where
  "download_loop download download_timeout file_id output_directory absolute_path_filename
       attempt fx =
     (if attempt < max_try then
        (case download attempt file_id download_timeout
                (analytics_filename output_directory absolute_path_filename) of
           None \<Rightarrow> (Inr (file_id, DOWNLOAD_DONE), fx\<lparr>calls := Suc (calls fx)\<rparr>)
         | Some e \<Rightarrow>
             download_loop download download_timeout file_id output_directory
               absolute_path_filename (Suc attempt)
               (fx\<lparr>calls := Suc (calls fx),
                   slept := slept fx @ [min (2 ^ Suc attempt) 10],
                   warnings := warnings fx @ [(Suc attempt, file_id)]\<rparr>))
      else (Inr (file_id, DOWNLOAD_ERROR), fx))"
  by pat_completeness auto
termination
  by (relation "measure (\<lambda>(d, t, f, out, p, attempt, fx). max_try - attempt)") auto

declare download_loop.simps [simp del]

definition download_analytics_file ::
  "(nat \<Rightarrow> string \<Rightarrow> int \<Rightarrow> string \<Rightarrow> pyexn option) \<Rightarrow> int \<Rightarrow> string \<Rightarrow> string \<Rightarrow> string
    \<Rightarrow> (pyexn + string \<times> string) \<times> effects" where
  "download_analytics_file download download_timeout file_id output_directory
       absolute_path_filename =
     download_loop download download_timeout file_id output_directory absolute_path_filename
       0 no_effects"





section \<open>graph.py: the parallel dispatch\<close>

record SearchStrategy =
  tool_type :: string
  search_queries :: "string list"
  parameters :: "(string \<times> pyval) list"
  priority :: int
  description :: string

record SearchResult =
  result_strategy :: SearchStrategy
  results :: "pyobj list"
  metadata :: pyobj
  quality_score :: "pyfloat option"

text \<open>
  The keys of the graph state that \<open>initiate_parallel_searches\<close> reads. \<open>topic\<close> and
  \<open>search_strategies\<close> are read by subscript; \<open>entity_preference\<close> and \<open>date_range\<close> by
  \<open>state.get\<close>, which gives \<open>None\<close> for a missing key as for a key set to \<open>None\<close>.
\<close>

record BigdataSearchState =
  topic :: string
  entity_preference :: "string list option"
  date_range :: "string option"
  search_strategies :: "SearchStrategy list"

record SearchStrategyState =
  arg_topic :: string
  strategy :: SearchStrategy
  entity_ids :: "string list option"
  global_date_range :: "string option"
  completed_searches :: "SearchResult list"

datatype Send = Send string SearchStrategyState

fun node :: "Send \<Rightarrow> string" where
  "node (Send n a) = n"

fun arg :: "Send \<Rightarrow> SearchStrategyState" where
  "arg (Send n a) = a"

definition initiate_parallel_searches :: "BigdataSearchState \<Rightarrow> Send list" where
  "initiate_parallel_searches state =
     map (\<lambda>s. Send ''execute_search_strategy''
                \<lparr>arg_topic = topic state,
                 strategy = s,
                 entity_ids = entity_preference state,
                 global_date_range = date_range state,
                 completed_searches = []\<rparr>)
       (search_strategies state)"

section \<open>Properties of the parameter cleaning\<close>

lemma update_set: "(a, b) \<in> set (AList.update k v al) \<Longrightarrow> (a, b) = (k, v) \<or> (a, b) \<in> set al"
  by (induction al) (auto split: if_splits)

lemma clean_value_not_None: "clean_value fos key val \<noteq> Inr (Some PNone)"
  by (cases val) (auto simp: clean_value_def split: sum.splits option.splits if_splits)

lemma clean_value_None: "clean_value fos key PNone = Inr None"
  by (simp add: clean_value_def)

lemma clean_loop_values:
  "clean_loop fos ps acc = Inr cleaned \<Longrightarrow> PNone \<notin> snd ` set acc \<Longrightarrow> PNone \<notin> snd ` set cleaned"
proof (induction ps arbitrary: acc)
  case Nil
  then show ?case by simp
next
  case (Cons p ps)
  obtain key val where p: "p = (key, val)" by (cases p)
  show ?case
  proof (cases "clean_value fos key val")
    case (Inl e)
    with Cons.prems p show ?thesis by simp
  next
    case (Inr r)
    show ?thesis
    proof (cases r)
      case None
      with Cons.prems p Inr have "clean_loop fos ps acc = Inr cleaned" by simp
      from Cons.IH [OF this Cons.prems(2)] show ?thesis .
    next
      case (Some v)
      with Cons.prems p Inr have run: "clean_loop fos ps (AList.update key v acc) = Inr cleaned"
        by simp
      from Some Inr have "v \<noteq> PNone" using clean_value_not_None [of fos key val] by auto
      with Cons.prems(2) have "PNone \<notin> snd ` set (AList.update key v acc)"
        by (auto dest: update_set)
      from Cons.IH [OF run this] show ?thesis .
    qed
  qed
qed

lemma clean_loop_omits:
  "clean_loop fos ps acc = Inr cleaned \<Longrightarrow> key \<notin> fst ` set acc \<Longrightarrow>
   (\<And>v. (key, v) \<in> set ps \<Longrightarrow> v = PNone) \<Longrightarrow> key \<notin> fst ` set cleaned"
proof (induction ps arbitrary: acc)
  case Nil
  then show ?case by simp
next
  case (Cons p ps)
  obtain k val where p: "p = (k, val)" by (cases p)
  have rest: "\<And>v. (key, v) \<in> set ps \<Longrightarrow> v = PNone" using Cons.prems(3) by simp
  show ?case
  proof (cases "clean_value fos k val")
    case (Inl e)
    with Cons.prems p show ?thesis by simp
  next
    case (Inr r)
    show ?thesis
    proof (cases r)
      case None
      with Cons.prems p Inr have "clean_loop fos ps acc = Inr cleaned" by simp
      from Cons.IH [OF this Cons.prems(2) rest] show ?thesis .
    next
      case (Some v)
      with Cons.prems p Inr have run: "clean_loop fos ps (AList.update k v acc) = Inr cleaned"
        by simp
      have "k \<noteq> key"
      proof
        assume "k = key"
        with p Cons.prems(3) have "val = PNone" by simp
        with Inr Some show False by (simp add: clean_value_None)
      qed
      with Cons.prems(2) have "key \<notin> fst ` set (AList.update k v acc)"
        by (simp add: dom_update)
      from Cons.IH [OF run this rest] show ?thesis .
    qed
  qed
qed

lemma clean_loop_keys:
  "clean_loop fos ps acc = Inr cleaned \<Longrightarrow> fst ` set cleaned \<subseteq> fst ` set acc \<union> fst ` set ps"
proof (induction ps arbitrary: acc)
  case Nil
  then show ?case by simp
next
  case (Cons p ps)
  obtain key val where p: "p = (key, val)" by (cases p)
  show ?case
  proof (cases "clean_value fos key val")
    case (Inl e)
    with Cons.prems p show ?thesis by simp
  next
    case (Inr r)
    show ?thesis
    proof (cases r)
      case None
      with Cons.prems p Inr have "clean_loop fos ps acc = Inr cleaned" by simp
      from Cons.IH [OF this] p show ?thesis by auto
    next
      case (Some v)
      with Cons.prems p Inr have "clean_loop fos ps (AList.update key v acc) = Inr cleaned"
        by simp
      from Cons.IH [OF this] p show ?thesis by (auto simp: dom_update)
    qed
  qed
qed

text \<open>
  Claim C9. Whenever \<open>_clean_tool_parameters\<close> returns a dictionary (for any parser of
  floats, any dictionary \<open>params\<close>, whose keys are distinct, and any tool type), every key
  of the result is a key of the input, no value of the result is \<open>None\<close>, and a key whose
  input value is \<open>None\<close> is not a key of the result.
\<close>

theorem clean_tool_parameters_keys_values:
  assumes "clean_tool_parameters float_of_str params tool = Inr cleaned"
    and "distinct (map fst params)"
  shows "fst ` set cleaned \<subseteq> fst ` set params \<and>
         PNone \<notin> snd ` set cleaned \<and>
         (\<forall>key. (key, PNone) \<in> set params \<longrightarrow> key \<notin> fst ` set cleaned)"
proof (intro conjI allI impI)
  from assms(1) have run: "clean_loop float_of_str params [] = Inr cleaned"
    by (simp add: clean_tool_parameters_def)
  from clean_loop_keys [OF run] show "fst ` set cleaned \<subseteq> fst ` set params" by simp
  from clean_loop_values [OF run] show "PNone \<notin> snd ` set cleaned" by simp
  fix key assume k: "(key, PNone) \<in> set params"
  have "\<And>v. (key, v) \<in> set params \<Longrightarrow> v = PNone"
    using k assms(2) by (meson eq_key_imp_eq_value)
  from clean_loop_omits [OF run _ this] show "key \<notin> fst ` set cleaned" by simp
qed
theorem clean_tool_parameters_keys_values_witness:
  "clean_tool_parameters (\<lambda>s. None)
      [(''sources'', PStr ''sec''), (''fiscal_year'', PNone), (''max_results'', PStr ''25'')]
      ''filings''
     = Inr [(''sources'', PList [PStr ''sec'']), (''max_results'', PInt 25)] \<and>
   distinct (map fst
      [(''sources'', PStr ''sec''), (''fiscal_year'', PNone), (''max_results'', PStr ''25'')]) \<and>
   fst ` set [(''sources'', PList [PStr ''sec'']), (''max_results'', PInt 25)]
     \<subseteq> fst ` set [(''sources'', PStr ''sec''), (''fiscal_year'', PNone),
                      (''max_results'', PStr ''25'')] \<and>
   PNone \<notin> snd ` set [(''sources'', PList [PStr ''sec'']), (''max_results'', PInt 25)] \<and>
   ''fiscal_year'' \<notin> fst ` set [(''sources'', PList [PStr ''sec'']), (''max_results'', PInt 25)]"
proof -
  have run: "clean_tool_parameters (\<lambda>s. None)
      [(''sources'', PStr ''sec''), (''fiscal_year'', PNone), (''max_results'', PStr ''25'')]
      ''filings''
     = Inr [(''sources'', PList [PStr ''sec'']), (''max_results'', PInt 25)]"
    by (simp add: clean_tool_parameters_def clean_value_def list_keys_def numeric_keys_def
        isdigit_def is_digit_char_def int_of_str_def int_max_str_digits_def is_decimal_char_def digits_value_def)
  have d: "distinct (map fst
      [(''sources'', PStr ''sec''), (''fiscal_year'', PNone), (''max_results'', PStr ''25'')])"
    by simp
  from clean_tool_parameters_keys_values [OF run d] run d show ?thesis
    by simp
qed

text \<open>
  Claim C1. The coercions of the numeric keys are not guarded against every value they
  accept. \<open>isdigit\<close> holds for the one-character string U+00B2 (superscript two), which
  \<open>int\<close> rejects, and \<open>int\<close> of the float NaN raises. In both cases the exception leaves
  \<open>_clean_tool_parameters\<close> and no dictionary is returned, whatever the tool type.
\<close>

theorem clean_tool_parameters_raises:
  "clean_tool_parameters float_of_str [(''fiscal_year'', PStr [CHR 0xB2])] tool
     = Inl (PyExn ValueError ''invalid literal for int() with base 10'') \<and>
   clean_tool_parameters float_of_str [(''max_results'', PFloat NaN)] tool
     = Inl (PyExn ValueError ''cannot convert float NaN to integer'')"
proof (intro conjI)
  show "clean_tool_parameters float_of_str [(''fiscal_year'', PStr [CHR 0xB2])] tool
      = Inl (PyExn ValueError ''invalid literal for int() with base 10'')"
    by (simp add: clean_tool_parameters_def clean_value_def list_keys_def numeric_keys_def
        isdigit_def is_digit_char_def int_of_str_def int_max_str_digits_def is_decimal_char_def)
  show "clean_tool_parameters float_of_str [(''max_results'', PFloat NaN)] tool
      = Inl (PyExn ValueError ''cannot convert float NaN to integer'')"
    by (simp add: clean_tool_parameters_def clean_value_def list_keys_def numeric_keys_def)
qed
text \<open>
  What the coercions do when nothing raises, item by item: for a list-typed key a
  string becomes a one-element list, a list is kept and a boolean is dropped; for a
  numeric key an int is kept and a string of decimal digits becomes its value; for
  \<open>rerank_threshold\<close> a float is kept, a string becomes what the parser reads, and a
  string the parser rejects is dropped.
\<close>

lemma clean_value_list_keys:
  assumes "key \<in> set list_keys"
  shows "clean_value float_of_str key (PStr s) = Inr (Some (PList [PStr s]))"
    and "clean_value float_of_str key (PList xs) = Inr (Some (PList xs))"
    and "clean_value float_of_str key (PBool b) = Inr None"
  using assms by (simp_all add: clean_value_def)

lemma clean_value_numeric_keys:
  assumes "key \<in> set numeric_keys"
  shows "clean_value float_of_str key (PInt n) = Inr (Some (PInt n))"
    and "int_of_float x = Inr n \<Longrightarrow> clean_value float_of_str key (PFloat x) = Inr (Some (PInt n))"
    and "s \<noteq> [] \<Longrightarrow> list_all is_decimal_char s \<Longrightarrow> length s \<le> int_max_str_digits \<Longrightarrow>
         clean_value float_of_str key (PStr s) = Inr (Some (PInt (digits_value s)))"
proof -
  from assms have nl: "key \<notin> set list_keys"
    by (auto simp: numeric_keys_def list_keys_def)
  show "clean_value float_of_str key (PInt n) = Inr (Some (PInt n))"
    using assms nl by (simp add: clean_value_def)
  show "int_of_float x = Inr n \<Longrightarrow> clean_value float_of_str key (PFloat x) = Inr (Some (PInt n))"
    using assms nl by (simp add: clean_value_def)
  assume s: "s \<noteq> []" "list_all is_decimal_char s" and len: "length s \<le> int_max_str_digits"
  then have "isdigit s"
    by (auto simp: isdigit_def list_all_iff is_decimal_char_def is_digit_char_def Let_def)
  moreover have "length (takeWhile is_decimal_char s) \<le> int_max_str_digits"
    using len length_takeWhile_le [of is_decimal_char s] by simp
  ultimately show "clean_value float_of_str key (PStr s) = Inr (Some (PInt (digits_value s)))"
    using s assms nl by (simp add: clean_value_def int_of_str_def)
qed

lemma clean_value_rerank_threshold:
  "clean_value float_of_str ''rerank_threshold'' (PFloat x) = Inr (Some (PFloat x))"
  "float_of_str s = Some x \<Longrightarrow>
     clean_value float_of_str ''rerank_threshold'' (PStr s) = Inr (Some (PFloat x))"
  "float_of_str s = None \<Longrightarrow> clean_value float_of_str ''rerank_threshold'' (PStr s) = Inr None"
  by (simp_all add: clean_value_def list_keys_def numeric_keys_def float_keys_def)

section \<open>Properties of the date-range parser\<close>

lemma rolling_keyword_nonempty: "map_of rolling_ranges d = Some r \<Longrightarrow> d \<noteq> []"
  by (auto simp: rolling_ranges_def split: if_splits)

lemma parse_date_range_returns: "\<exists>r. parse_date_range valid dr = Inr r"
  by (auto simp: parse_date_range_def AbsoluteDateRange_def
      split: option.splits list.splits)

lemma parse_date_range_rolling:
  "map_of rolling_ranges d = Some r \<Longrightarrow> parse_date_range valid (Some d) = Inr (Some (Rolling r))"
  using rolling_keyword_nonempty [of d r] by (simp add: parse_date_range_def)

lemma parse_date_range_absolute:
  assumes "parse_date_range valid dr = Inr (Some (Absolute a b))"
  shows "\<exists>d s e. dr = Some d \<and> CHR '','' \<in> set d \<and> split_on CHR '','' d = [s, e] \<and>
           a = strip s @ ''T00:00:00'' \<and> b = strip e @ ''T23:59:59''"
  using assms
  by (auto simp: parse_date_range_def AbsoluteDateRange_def
      split: option.splits list.splits if_splits)

lemma parse_date_range_none:
  assumes "dr = None \<or> dr = Some [] \<or>
           (\<exists>d. dr = Some d \<and> map_of rolling_ranges d = None \<and>
                (CHR '','' \<notin> set d \<or> length (split_on CHR '','' d) \<noteq> 2))"
  shows "parse_date_range valid dr = Inr None"
  using assms
  by (auto simp: parse_date_range_def split: option.splits list.splits)

text \<open>
  Claim C10. \<open>_parse_date_range\<close> returns on every input (with the vendor's
  constructor raising nothing but \<open>ValueError\<close>, as modelled): a rolling range for
  each of the ten keywords of the table, an absolute range only for a string that has
  a comma and splits at its commas into exactly two parts, and \<open>None\<close> for \<open>None\<close>, for
  the empty string, and for every string that is no keyword and has no comma or does
  not split into exactly two parts.
\<close>

theorem parse_date_range_total:
  "(\<exists>r. parse_date_range valid dr = Inr r) \<and>
   length rolling_ranges = 10 \<and> distinct (map fst rolling_ranges) \<and>
   (\<forall>d r. map_of rolling_ranges d = Some r \<longrightarrow>
      parse_date_range valid (Some d) = Inr (Some (Rolling r))) \<and>
   (\<forall>a b. parse_date_range valid dr = Inr (Some (Absolute a b)) \<longrightarrow>
      (\<exists>d s e. dr = Some d \<and> CHR '','' \<in> set d \<and> split_on CHR '','' d = [s, e])) \<and>
   (dr = None \<or> dr = Some [] \<or>
      (\<exists>d. dr = Some d \<and> map_of rolling_ranges d = None \<and>
           (CHR '','' \<notin> set d \<or> length (split_on CHR '','' d) \<noteq> 2))
    \<longrightarrow> parse_date_range valid dr = Inr None)"
proof (intro conjI allI impI)
  show "\<exists>r. parse_date_range valid dr = Inr r" by (rule parse_date_range_returns)
  show "length rolling_ranges = 10" by (simp add: rolling_ranges_def)
  show "distinct (map fst rolling_ranges)" by (simp add: rolling_ranges_def)
next
  fix d r assume "map_of rolling_ranges d = Some r"
  then show "parse_date_range valid (Some d) = Inr (Some (Rolling r))"
    by (rule parse_date_range_rolling)
next
  fix a b assume "parse_date_range valid dr = Inr (Some (Absolute a b))"
  from parse_date_range_absolute [OF this]
  show "\<exists>d s e. dr = Some d \<and> CHR '','' \<in> set d \<and> split_on CHR '','' d = [s, e]"
    by blast
next
  assume "dr = None \<or> dr = Some [] \<or>
      (\<exists>d. dr = Some d \<and> map_of rolling_ranges d = None \<and>
           (CHR '','' \<notin> set d \<or> length (split_on CHR '','' d) \<noteq> 2))"
  then show "parse_date_range valid dr = Inr None" by (rule parse_date_range_none)
qed

theorem parse_date_range_total_witness:
  "parse_date_range (\<lambda>s. True) (Some ''2024-01-01, 2024-02-01'')
     = Inr (Some (Absolute ''2024-01-01T00:00:00'' ''2024-02-01T23:59:59'')) \<and>
   CHR '','' \<in> set ''2024-01-01, 2024-02-01'' \<and>
   split_on CHR '','' ''2024-01-01, 2024-02-01'' = [''2024-01-01'', '' 2024-02-01''] \<and>
   map_of rolling_ranges ''last_month'' = Some LAST_THIRTY_DAYS \<and>
   parse_date_range (\<lambda>s. True) (Some ''last_month'') = Inr (Some (Rolling LAST_THIRTY_DAYS)) \<and>
   map_of rolling_ranges ''a,b,c'' = None \<and>
   length (split_on CHR '','' ''a,b,c'') = 3 \<and>
   parse_date_range (\<lambda>s. True) (Some ''a,b,c'') = Inr None \<and>
   parse_date_range (\<lambda>s. True) (Some ''next_week'') = Inr None \<and>
   parse_date_range (\<lambda>s. False) (Some ''2024-01-01,x'') = Inr None"
proof -
  have kw: "map_of rolling_ranges ''last_month'' = Some LAST_THIRTY_DAYS"
    by (simp add: rolling_ranges_def)
  have no1: "map_of rolling_ranges ''a,b,c'' = None"
    by (simp add: rolling_ranges_def)
  have no2: "map_of rolling_ranges ''next_week'' = None"
    by (simp add: rolling_ranges_def)
  have len: "length (split_on CHR '','' ''a,b,c'') = 3" by simp
  have split2: "split_on CHR '','' ''2024-01-01, 2024-02-01'' = [''2024-01-01'', '' 2024-02-01'']"
    by simp
  have abs: "parse_date_range (\<lambda>s. True) (Some ''2024-01-01, 2024-02-01'')
      = Inr (Some (Absolute ''2024-01-01T00:00:00'' ''2024-02-01T23:59:59''))"
    by (simp add: parse_date_range_def rolling_ranges_def AbsoluteDateRange_def strip_def
        is_space_def)
  have inv: "parse_date_range (\<lambda>s. False) (Some ''2024-01-01,x'') = Inr None"
    by (simp add: parse_date_range_def rolling_ranges_def AbsoluteDateRange_def)
  note t1 = parse_date_range_total [of "\<lambda>s. True" "Some ''last_month''"]
  note t2 = parse_date_range_total [of "\<lambda>s. True" "Some ''a,b,c''"]
  note t3 = parse_date_range_total [of "\<lambda>s. True" "Some ''next_week''"]
  from t1 kw have r1: "parse_date_range (\<lambda>s. True) (Some ''last_month'')
      = Inr (Some (Rolling LAST_THIRTY_DAYS))" by blast
  from t2 no1 len have r2: "parse_date_range (\<lambda>s. True) (Some ''a,b,c'') = Inr None"
    by simp
  from t3 no2 have r3: "parse_date_range (\<lambda>s. True) (Some ''next_week'') = Inr None"
    by simp
  from kw no1 len split2 abs inv r1 r2 r3 show ?thesis by simp
qed

section \<open>Properties of the parallel dispatch\<close>

text \<open>
  Claim C6. For a state whose list of strategies is not empty,
  \<open>initiate_parallel_searches\<close> returns as many \<open>Send\<close>s as there are strategies, and
  the \<open>i\<close>-th \<open>Send\<close> targets the node \<open>execute_search_strategy\<close> and carries the
  \<open>i\<close>-th strategy, the topic of the state, its \<open>entity_preference\<close> as \<open>entity_ids\<close>,
  its \<open>date_range\<close> as \<open>global_date_range\<close>, and an empty \<open>completed_searches\<close>.
\<close>

theorem initiate_parallel_searches_sends:
  assumes "search_strategies state \<noteq> []"
  shows "length (initiate_parallel_searches state) = length (search_strategies state) \<and>
         (\<forall>i < length (search_strategies state).
            node (initiate_parallel_searches state ! i) = ''execute_search_strategy'' \<and>
            strategy (arg (initiate_parallel_searches state ! i)) = search_strategies state ! i \<and>
            arg_topic (arg (initiate_parallel_searches state ! i)) = topic state \<and>
            entity_ids (arg (initiate_parallel_searches state ! i)) = entity_preference state \<and>
            global_date_range (arg (initiate_parallel_searches state ! i)) = date_range state \<and>
            completed_searches (arg (initiate_parallel_searches state ! i)) = [])"
  by (simp add: initiate_parallel_searches_def)

theorem initiate_parallel_searches_sends_witness:
  "search_strategies
     \<lparr>topic = ''chips'', entity_preference = Some [''D8442A''], date_range = None,
      search_strategies =
        [\<lparr>tool_type = ''news'', search_queries = [''chip demand''], parameters = [],
          priority = 1, description = ''news''\<rparr>,
         \<lparr>tool_type = ''filings'', search_queries = [''risk''], parameters = [],
          priority = 2, description = ''10-K''\<rparr>]\<rparr> \<noteq> [] \<and>
   length (initiate_parallel_searches
     \<lparr>topic = ''chips'', entity_preference = Some [''D8442A''], date_range = None,
      search_strategies =
        [\<lparr>tool_type = ''news'', search_queries = [''chip demand''], parameters = [],
          priority = 1, description = ''news''\<rparr>,
         \<lparr>tool_type = ''filings'', search_queries = [''risk''], parameters = [],
          priority = 2, description = ''10-K''\<rparr>]\<rparr>) = 2 \<and>
   initiate_parallel_searches
     \<lparr>topic = ''chips'', entity_preference = Some [''D8442A''], date_range = None,
      search_strategies =
        [\<lparr>tool_type = ''news'', search_queries = [''chip demand''], parameters = [],
          priority = 1, description = ''news''\<rparr>,
         \<lparr>tool_type = ''filings'', search_queries = [''risk''], parameters = [],
          priority = 2, description = ''10-K''\<rparr>]\<rparr> ! 1
     = Send ''execute_search_strategy''
         \<lparr>arg_topic = ''chips'',
          strategy = \<lparr>tool_type = ''filings'', search_queries = [''risk''], parameters = [],
                      priority = 2, description = ''10-K''\<rparr>,
          entity_ids = Some [''D8442A''], global_date_range = None,
          completed_searches = []\<rparr>"
proof -
  let ?st = "\<lparr>topic = ''chips'', entity_preference = Some [''D8442A''], date_range = None,
      search_strategies =
        [\<lparr>tool_type = ''news'', search_queries = [''chip demand''], parameters = [],
          priority = 1, description = ''news''\<rparr>,
         \<lparr>tool_type = ''filings'', search_queries = [''risk''], parameters = [],
          priority = 2, description = ''10-K''\<rparr>]\<rparr>"
  have ne: "search_strategies ?st \<noteq> []" by simp
  from initiate_parallel_searches_sends [OF ne]
  have "length (initiate_parallel_searches ?st) = length (search_strategies ?st)" by blast
  then have len: "length (initiate_parallel_searches ?st) = 2" by simp
  have "initiate_parallel_searches ?st ! 1
     = Send ''execute_search_strategy''
         \<lparr>arg_topic = ''chips'',
          strategy = \<lparr>tool_type = ''filings'', search_queries = [''risk''], parameters = [],
                      priority = 2, description = ''10-K''\<rparr>,
          entity_ids = Some [''D8442A''], global_date_range = None,
          completed_searches = []\<rparr>"
    by (simp add: initiate_parallel_searches_def)
  with ne len show ?thesis by simp
qed

section \<open>Properties of the shared client\<close>

lemma get_cached:
  "BIGDATA_AVAILABLE ev \<Longrightarrow> bigdata_client st = Some c \<Longrightarrow>
   get_bigdata_client ctor ev st = (Inr c, st)"
  by (simp add: get_bigdata_client_def)

lemma get_keeps_client:
  "bigdata_client st = Some c \<Longrightarrow> snd (get_bigdata_client ctor ev st) = st"
  by (simp add: get_bigdata_client_def)

lemma get_builds_only_when_None:
  "built (snd (get_bigdata_client ctor ev st)) \<noteq> built st \<Longrightarrow> bigdata_client st = None"
  by (cases "bigdata_client st") (auto simp: get_bigdata_client_def split: if_splits)

lemma get_calls_ctor_only_when_None:
  "ctor_calls (snd (get_bigdata_client ctor ev st)) \<noteq> ctor_calls st \<Longrightarrow> bigdata_client st = None"
  by (cases "bigdata_client st") (auto simp: get_bigdata_client_def split: if_splits)

lemma get_result_is_singleton:
  "get_bigdata_client ctor ev st = (Inr c, st') \<Longrightarrow>
   BIGDATA_AVAILABLE ev \<and> bigdata_client st' = Some c"
  by (auto simp: get_bigdata_client_def split: if_splits option.splits)

lemma get_built_cases:
  "built (snd (get_bigdata_client ctor ev st)) = built st \<and>
     bigdata_client (snd (get_bigdata_client ctor ev st)) = bigdata_client st
   \<or> bigdata_client st = None \<and>
     built (snd (get_bigdata_client ctor ev st)) = Client (ctor_calls st) # built st \<and>
     bigdata_client (snd (get_bigdata_client ctor ev st)) = Some (Client (ctor_calls st))"
  by (auto simp: get_bigdata_client_def split: if_splits option.splits)

lemma repeated_get:
  assumes "BIGDATA_AVAILABLE ev" and "bigdata_client st = Some c"
  shows "run_ops ctor ev (replicate n Get) st = (replicate n (Inr c), st)"
  by (induction n) (simp_all add: get_cached [OF assms])

lemma no_build_while_set:
  "bigdata_client st \<noteq> None \<Longrightarrow> Reset \<notin> set ops \<Longrightarrow>
   built (snd (run_ops ctor ev ops st)) = built st"
proof (induction ops arbitrary: st)
  case Nil
  then show ?case by simp
next
  case (Cons op ops)
  from Cons.prems(2) have op: "op = Get" and rest: "Reset \<notin> set ops"
    by (cases op; simp)+
  from Cons.prems(1) obtain c where c: "bigdata_client st = Some c" by auto
  have same: "snd (get_bigdata_client ctor ev st) = st" by (rule get_keeps_client [OF c])
  obtain r st' where g: "get_bigdata_client ctor ev st = (r, st')"
    by (cases "get_bigdata_client ctor ev st")
  with same have "st' = st" by simp
  with g op Cons.IH [OF Cons.prems(1) rest] show ?case
    by (cases "run_ops ctor ev ops st") simp
qed

lemma one_build_between_resets:
  "Reset \<notin> set ops \<Longrightarrow> length (built (snd (run_ops ctor ev ops st))) \<le> Suc (length (built st))"
proof (induction ops arbitrary: st)
  case Nil
  then show ?case by simp
next
  case (Cons op ops)
  from Cons.prems have op: "op = Get" and rest: "Reset \<notin> set ops"
    by (cases op; simp)+
  obtain r st' where g: "get_bigdata_client ctor ev st = (r, st')"
    by (cases "get_bigdata_client ctor ev st")
  have run: "snd (run_ops ctor ev (op # ops) st) = snd (run_ops ctor ev ops st')"
    using g op by (cases "run_ops ctor ev ops st'") simp
  from get_built_cases [of ctor ev st] g
  consider (same) "built st' = built st"
    | (new) "built st' = Client (ctor_calls st) # built st" "bigdata_client st' \<noteq> None"
    by auto
  then show ?case
  proof cases
    case same
    with Cons.IH [OF rest, of st'] run show ?thesis by simp
  next
    case new
    from no_build_while_set [OF new(2) rest] new(1) run show ?thesis by simp
  qed
qed



lemma client_inv_reset: "client_inv st \<Longrightarrow> client_inv (reset_bigdata_client st)"
  by (simp add: client_inv_def reset_bigdata_client_def)


text \<open>
  Claim C7. \<open>get_bigdata_client\<close> returns the singleton, leaving the state as it is,
  whenever the singleton is set; it builds a client only when the singleton is
  \<open>None\<close>; once a call has returned a client, every later call returns that client
  and changes nothing, however often it is repeated; a sequence of calls without a
  reset builds at most one client; and \<open>reset_bigdata_client\<close> sets the singleton to
  \<open>None\<close>.
\<close>

theorem client_built_once_between_resets:
  "(BIGDATA_AVAILABLE ev \<and> bigdata_client st = Some c \<longrightarrow>
      get_bigdata_client ctor ev st = (Inr c, st)) \<and>
   (built (snd (get_bigdata_client ctor ev st)) \<noteq> built st \<or>
    ctor_calls (snd (get_bigdata_client ctor ev st)) \<noteq> ctor_calls st
      \<longrightarrow> bigdata_client st = None) \<and>
   (get_bigdata_client ctor ev st = (Inr c, st') \<longrightarrow>
      (\<forall>n. run_ops ctor ev (replicate n Get) st' = (replicate n (Inr c), st'))) \<and>
   (Reset \<notin> set ops \<longrightarrow>
      length (built (snd (run_ops ctor ev ops st))) \<le> Suc (length (built st))) \<and>
   bigdata_client (reset_bigdata_client st) = None"
proof (intro conjI allI impI)
  assume "BIGDATA_AVAILABLE ev \<and> bigdata_client st = Some c"
  then show "get_bigdata_client ctor ev st = (Inr c, st)" by (simp add: get_cached)
next
  assume "built (snd (get_bigdata_client ctor ev st)) \<noteq> built st \<or>
    ctor_calls (snd (get_bigdata_client ctor ev st)) \<noteq> ctor_calls st"
  then show "bigdata_client st = None"
    using get_builds_only_when_None get_calls_ctor_only_when_None by blast
next
  fix n assume "get_bigdata_client ctor ev st = (Inr c, st')"
  from get_result_is_singleton [OF this]
  show "run_ops ctor ev (replicate n Get) st' = (replicate n (Inr c), st')"
    by (simp add: repeated_get)
next
  assume "Reset \<notin> set ops"
  then show "length (built (snd (run_ops ctor ev ops st))) \<le> Suc (length (built st))"
    by (rule one_build_between_resets)
next
  show "bigdata_client (reset_bigdata_client st) = None"
    by (simp add: reset_bigdata_client_def)
qed

theorem client_built_once_between_resets_witness:
  "BIGDATA_AVAILABLE
     \<lparr>BIGDATA_AVAILABLE = True, BIGDATA_USERNAME = Some ''user'', BIGDATA_PASSWORD = Some ''pw''\<rparr> \<and>
   get_bigdata_client (\<lambda>n u p. None)
     \<lparr>BIGDATA_AVAILABLE = True, BIGDATA_USERNAME = Some ''user'', BIGDATA_PASSWORD = Some ''pw''\<rparr>
     initial_state
     = (Inr (Client 0), \<lparr>bigdata_client = Some (Client 0), ctor_calls = 1, built = [Client 0]\<rparr>) \<and>
   get_bigdata_client (\<lambda>n u p. None)
     \<lparr>BIGDATA_AVAILABLE = True, BIGDATA_USERNAME = Some ''user'', BIGDATA_PASSWORD = Some ''pw''\<rparr>
     \<lparr>bigdata_client = Some (Client 0), ctor_calls = 1, built = [Client 0]\<rparr>
     = (Inr (Client 0), \<lparr>bigdata_client = Some (Client 0), ctor_calls = 1, built = [Client 0]\<rparr>) \<and>
   run_ops (\<lambda>n u p. None)
     \<lparr>BIGDATA_AVAILABLE = True, BIGDATA_USERNAME = Some ''user'', BIGDATA_PASSWORD = Some ''pw''\<rparr>
     (replicate 3 Get)
     \<lparr>bigdata_client = Some (Client 0), ctor_calls = 1, built = [Client 0]\<rparr>
     = (replicate 3 (Inr (Client 0)),
        \<lparr>bigdata_client = Some (Client 0), ctor_calls = 1, built = [Client 0]\<rparr>) \<and>
   Reset \<notin> set [Get, Get, Get] \<and>
   length (built (snd (run_ops (\<lambda>n u p. None)
     \<lparr>BIGDATA_AVAILABLE = True, BIGDATA_USERNAME = Some ''user'', BIGDATA_PASSWORD = Some ''pw''\<rparr>
     [Get, Get, Get] initial_state))) \<le> Suc (length (built initial_state)) \<and>
   bigdata_client (reset_bigdata_client
     \<lparr>bigdata_client = Some (Client 0), ctor_calls = 1, built = [Client 0]\<rparr>) = None"
proof -
  let ?ev = "\<lparr>BIGDATA_AVAILABLE = True, BIGDATA_USERNAME = Some ''user'',
              BIGDATA_PASSWORD = Some ''pw''\<rparr>"
  let ?st = "\<lparr>bigdata_client = Some (Client 0), ctor_calls = 1, built = [Client 0]\<rparr>"
  let ?ctor = "\<lambda>(n::nat) (u::string) (p::string). None :: pyexn option"
  have av: "BIGDATA_AVAILABLE ?ev" by simp
  have first: "get_bigdata_client ?ctor ?ev initial_state = (Inr (Client 0), ?st)"
    by (simp add: get_bigdata_client_def initial_state_def)
  have set: "bigdata_client ?st = Some (Client 0)" by simp
  have nr: "Reset \<notin> set [Get, Get, Get]" by simp
  note t1 = client_built_once_between_resets
    [where ctor = ?ctor and ev = ?ev and st = initial_state and c = "Client 0"
       and st' = ?st and ops = "[Get, Get, Get]"]
  note t2 = client_built_once_between_resets
    [where ctor = ?ctor and ev = ?ev and st = ?st and c = "Client 0"
       and st' = ?st and ops = "[]"]
  from t1 first have rep: "run_ops ?ctor ?ev (replicate 3 Get) ?st
      = (replicate 3 (Inr (Client 0)), ?st)" by blast
  from t1 nr have once: "length (built (snd (run_ops ?ctor ?ev [Get, Get, Get] initial_state)))
      \<le> Suc (length (built initial_state))" by blast
  from t2 av set have again: "get_bigdata_client ?ctor ?ev ?st = (Inr (Client 0), ?st)"
    by blast
  from t2 have reset: "bigdata_client (reset_bigdata_client ?st) = None" by blast
  from av first again rep nr once reset show ?thesis by blast
qed

section \<open>Properties of the search functions\<close>

lemma starts_with_iff: "starts_with p s \<longleftrightarrow> (\<exists>post. s = p @ post)"
  by (induction p s rule: starts_with.induct) auto

lemma contains_iff: "contains sub s \<longleftrightarrow> (\<exists>pre post. s = pre @ sub @ post)"
proof (induction s)
  case Nil
  then show ?case by auto
next
  case (Cons c cs)
  show ?case
  proof
    assume "contains sub (c # cs)"
    then consider "starts_with sub (c # cs)" | "contains sub cs" by auto
    then show "\<exists>pre post. c # cs = pre @ sub @ post"
    proof cases
      case 1
      then obtain post where "c # cs = sub @ post" by (auto simp: starts_with_iff)
      then have "c # cs = [] @ sub @ post" by simp
      then show ?thesis by blast
    next
      case 2
      with Cons.IH obtain pre post where "cs = pre @ sub @ post" by auto
      then have "c # cs = (c # pre) @ sub @ post" by simp
      then show ?thesis by blast
    qed
  next
    assume "\<exists>pre post. c # cs = pre @ sub @ post"
    then obtain pre post where eq: "c # cs = pre @ sub @ post" by auto
    show "contains sub (c # cs)"
    proof (cases pre)
      case Nil
      with eq have "starts_with sub (c # cs)" by (auto simp: starts_with_iff)
      then show ?thesis by simp
    next
      case (Cons a pre')
      with eq have "cs = pre' @ sub @ post" by simp
      with Cons.IH have "contains sub cs" by blast
      then show ?thesis by simp
    qed
  qed
qed

lemma is_auth_error_iff:
  "is_auth_error e \<longleftrightarrow>
     (\<exists>sub \<in> set auth_errors. \<exists>pre post. lower (message e) = pre @ sub @ post)"
  by (simp add: is_auth_error_def Let_def list_ex_iff contains_iff)


















lemma any_auth_error_iff:
  "any_auth_error errs \<longleftrightarrow>
     (\<exists>(q, e) \<in> set errs. \<exists>sub \<in> set auth_errors. \<exists>pre post.
        lower (message e) = pre @ sub @ post)"
  unfolding any_auth_error_def list_ex_iff is_auth_error_iff by (rule refl)




section \<open>Properties of the batch scripts\<close>

lemma status_distinct: "UPLOAD_DONE \<noteq> UPLOAD_ERROR" "DOWNLOAD_DONE \<noteq> DOWNLOAD_ERROR"
  by (simp_all add: UPLOAD_DONE_def UPLOAD_ERROR_def DOWNLOAD_DONE_def DOWNLOAD_ERROR_def)

lemma backoff_le: "min ((2::nat) ^ attempt) 10 \<le> 10"
  by simp

lemma upload_loop_retries:
  assumes "a + k \<le> max_try"
    and "\<forall>j. a \<le> j \<and> j < a + k \<longrightarrow>
           (\<exists>e. u j p = Inl e \<and> exn_class_of e = BigdataClientRateLimitError)"
  shows "upload_loop u p a fx
           = upload_loop u p (a + k)
               (fx\<lparr>calls := calls fx + k,
                   slept := slept fx @ map (\<lambda>attempt. min (2 ^ attempt) 10) [Suc a ..< Suc (a + k)],
                   warnings := warnings fx @ map (\<lambda>attempt. (attempt, p)) [Suc a ..< Suc (a + k)]\<rparr>)"
  using assms
proof (induction k arbitrary: a fx)
  case 0
  then show ?case by simp
next
  case (Suc k)
  from Suc.prems(2) have "\<exists>e. u a p = Inl e \<and> exn_class_of e = BigdataClientRateLimitError"
    by simp
  then obtain e where e: "u a p = Inl e" "exn_class_of e = BigdataClientRateLimitError"
    by blast
  have lt: "a < max_try" using Suc.prems(1) by simp
  have step: "upload_loop u p a fx
                = upload_loop u p (Suc a)
                    (fx\<lparr>calls := Suc (calls fx),
                        slept := slept fx @ [min (2 ^ Suc a) 10],
                        warnings := warnings fx @ [(Suc a, p)]\<rparr>)"
    using e lt by (subst upload_loop.simps) simp
  have bound: "Suc a + k \<le> max_try" using Suc.prems(1) by simp
  have rest: "\<forall>j. Suc a \<le> j \<and> j < Suc a + k \<longrightarrow>
                (\<exists>e. u j p = Inl e \<and> exn_class_of e = BigdataClientRateLimitError)"
    using Suc.prems(2) by simp
  have l: "[Suc a ..< Suc (Suc (a + k))] = Suc a # [Suc (Suc a) ..< Suc (Suc (a + k))]"
    by (subst upt_rec) simp
  show ?case
    unfolding step Suc.IH [OF bound rest] by (simp add: l del: upt_Suc)
qed

lemma download_loop_retries:
  assumes "a + k \<le> max_try"
    and "\<forall>j. a \<le> j \<and> j < a + k \<longrightarrow> d j f t (analytics_filename out path) \<noteq> None"
  shows "download_loop d t f out path a fx
           = download_loop d t f out path (a + k)
               (fx\<lparr>calls := calls fx + k,
                   slept := slept fx @ map (\<lambda>attempt. min (2 ^ attempt) 10) [Suc a ..< Suc (a + k)],
                   warnings := warnings fx @ map (\<lambda>attempt. (attempt, f)) [Suc a ..< Suc (a + k)]\<rparr>)"
  using assms
proof (induction k arbitrary: a fx)
  case 0
  then show ?case by simp
next
  case (Suc k)
  from Suc.prems(2) have "d a f t (analytics_filename out path) \<noteq> None"
    by simp
  then obtain e where e: "d a f t (analytics_filename out path) = Some e"
    by blast
  have lt: "a < max_try" using Suc.prems(1) by simp
  have step: "download_loop d t f out path a fx
                = download_loop d t f out path (Suc a)
                    (fx\<lparr>calls := Suc (calls fx),
                        slept := slept fx @ [min (2 ^ Suc a) 10],
                        warnings := warnings fx @ [(Suc a, f)]\<rparr>)"
    using e lt by (subst download_loop.simps) simp
  have bound: "Suc a + k \<le> max_try" using Suc.prems(1) by simp
  have rest: "\<forall>j. Suc a \<le> j \<and> j < Suc a + k \<longrightarrow>
                d j f t (analytics_filename out path) \<noteq> None"
    using Suc.prems(2) by simp
  have l: "[Suc a ..< Suc (Suc (a + k))] = Suc a # [Suc (Suc a) ..< Suc (Suc (a + k))]"
    by (subst upt_rec) simp
  show ?case
    unfolding step Suc.IH [OF bound rest] by (simp add: l del: upt_Suc)
qed

lemma upload_loop_bounds:
  "calls (snd (upload_loop u p a fx)) \<le> calls fx + (max_try - a) \<and>
   (\<forall>s \<in> set (slept (snd (upload_loop u p a fx))). s \<in> set (slept fx) \<or> s \<le> 10)"
proof (induction u p a fx rule: upload_loop.induct)
  case (1 u p a fx)
  show ?case
  proof (cases "a < max_try")
    case False
    then show ?thesis by (subst (1 2) upload_loop.simps) simp
  next
    case lt: True
    show ?thesis
    proof (cases "u a p")
      case (Inr file_id)
      with lt show ?thesis by (subst (1 2) upload_loop.simps) simp
    next
      case (Inl e)
      show ?thesis
      proof (cases "exn_class_of e = BigdataClientRateLimitError")
        case False
        with lt Inl show ?thesis by (subst (1 2) upload_loop.simps) simp
      next
        case True
        have step: "upload_loop u p a fx
                      = upload_loop u p (Suc a)
                          (fx\<lparr>calls := Suc (calls fx),
                              slept := slept fx @ [min (2 ^ Suc a) 10],
                              warnings := warnings fx @ [(Suc a, p)]\<rparr>)"
          using lt Inl True by (subst upload_loop.simps) simp
        from "1.IH" [OF lt Inl True] lt show ?thesis
          unfolding step by auto
      qed
    qed
  qed
qed

lemma download_loop_bounds:
  "calls (snd (download_loop d t f out path a fx)) \<le> calls fx + (max_try - a) \<and>
   (\<forall>s \<in> set (slept (snd (download_loop d t f out path a fx))). s \<in> set (slept fx) \<or> s \<le> 10)"
proof (induction d t f out path a fx rule: download_loop.induct)
  case (1 d t f out path a fx)
  show ?case
  proof (cases "a < max_try")
    case False
    then show ?thesis by (subst (1 2) download_loop.simps) simp
  next
    case lt: True
    show ?thesis
    proof (cases "d a f t (analytics_filename out path)")
      case None
      with lt show ?thesis by (subst (1 2) download_loop.simps) simp
    next
      case (Some e)
      have step: "download_loop d t f out path a fx
                    = download_loop d t f out path (Suc a)
                        (fx\<lparr>calls := Suc (calls fx),
                            slept := slept fx @ [min (2 ^ Suc a) 10],
                            warnings := warnings fx @ [(Suc a, f)]\<rparr>)"
        using lt Some by (subst download_loop.simps) simp
      from "1.IH" [OF lt Some] lt show ?thesis
        unfolding step by auto
    qed
  qed
qed

lemma download_loop_returns:
  "fst (download_loop d t f out path a fx) = Inr (f, DOWNLOAD_DONE) \<or>
   fst (download_loop d t f out path a fx) = Inr (f, DOWNLOAD_ERROR)"
proof (induction d t f out path a fx rule: download_loop.induct)
  case (1 d t f out path a fx)
  show ?case
  proof (cases "a < max_try")
    case False
    then show ?thesis by (subst (1 2) download_loop.simps) simp
  next
    case lt: True
    show ?thesis
    proof (cases "d a f t (analytics_filename out path)")
      case None
      with lt show ?thesis by (subst (1 2) download_loop.simps) simp
    next
      case (Some e)
      have step: "download_loop d t f out path a fx
                    = download_loop d t f out path (Suc a)
                        (fx\<lparr>calls := Suc (calls fx),
                            slept := slept fx @ [min (2 ^ Suc a) 10],
                            warnings := warnings fx @ [(Suc a, f)]\<rparr>)"
        using lt Some by (subst download_loop.simps) simp
      from "1.IH" [OF lt Some] show ?thesis
        unfolding step .
    qed
  qed
qed

lemma upload_loop_result:
  "(\<exists>file_id. fst (upload_loop u p a fx) = Inr (p, file_id, UPLOAD_DONE)) \<or>
   fst (upload_loop u p a fx) = Inr (p, [], UPLOAD_ERROR) \<or>
   (\<exists>e. fst (upload_loop u p a fx) = Inl e \<and> exn_class_of e \<noteq> BigdataClientRateLimitError)"
proof (induction u p a fx rule: upload_loop.induct)
  case (1 u p a fx)
  show ?case
  proof (cases "a < max_try")
    case False
    then show ?thesis by (subst (1 2 3) upload_loop.simps) simp
  next
    case lt: True
    show ?thesis
    proof (cases "u a p")
      case (Inr file_id)
      with lt show ?thesis by (subst (1 2 3) upload_loop.simps) simp
    next
      case (Inl e)
      show ?thesis
      proof (cases "exn_class_of e = BigdataClientRateLimitError")
        case False
        with lt Inl show ?thesis by (subst (1 2 3) upload_loop.simps) simp
      next
        case True
        have step: "upload_loop u p a fx
                      = upload_loop u p (Suc a)
                          (fx\<lparr>calls := Suc (calls fx),
                              slept := slept fx @ [min (2 ^ Suc a) 10],
                              warnings := warnings fx @ [(Suc a, p)]\<rparr>)"
          using lt Inl True by (subst upload_loop.simps) simp
        from "1.IH" [OF lt Inl True] show ?thesis
          unfolding step .
      qed
    qed
  qed
qed

text \<open>
  The three ways \<open>upload_file\<close> ends, and the two ways \<open>download_analytics_file\<close> ends,
  after \<open>k\<close> attempts that failed with an exception the loop catches.
\<close>

lemma upload_file_done:
  assumes "k < max_try"
    and "\<forall>j < k. \<exists>e. u j p = Inl e \<and> exn_class_of e = BigdataClientRateLimitError"
    and "u k p = Inr file_id"
  shows "upload_file u p
           = (Inr (p, file_id, UPLOAD_DONE),
              \<lparr>calls = Suc k, slept = map (\<lambda>attempt. min (2 ^ attempt) 10) [1 ..< Suc k],
               warnings = map (\<lambda>attempt. (attempt, p)) [1 ..< Suc k]\<rparr>)"
proof -
  have a: "upload_file u p
          = upload_loop u p k
              \<lparr>calls = k, slept = map (\<lambda>attempt. min (2 ^ attempt) 10) [1 ..< Suc k],
               warnings = map (\<lambda>attempt. (attempt, p)) [1 ..< Suc k]\<rparr>"
    using upload_loop_retries [of 0 k u p no_effects] assms(1,2)
    by (simp add: upload_file_def no_effects_def del: upt_Suc)
  show ?thesis
    unfolding a using assms(1,3) by (subst upload_loop.simps) (simp del: upt_Suc)
qed

lemma upload_file_raises:
  assumes "k < max_try"
    and "\<forall>j < k. \<exists>e. u j p = Inl e \<and> exn_class_of e = BigdataClientRateLimitError"
    and "u k p = Inl e" and "exn_class_of e \<noteq> BigdataClientRateLimitError"
  shows "upload_file u p
           = (Inl e,
              \<lparr>calls = Suc k, slept = map (\<lambda>attempt. min (2 ^ attempt) 10) [1 ..< Suc k],
               warnings = map (\<lambda>attempt. (attempt, p)) [1 ..< Suc k]\<rparr>)"
proof -
  have a: "upload_file u p
          = upload_loop u p k
              \<lparr>calls = k, slept = map (\<lambda>attempt. min (2 ^ attempt) 10) [1 ..< Suc k],
               warnings = map (\<lambda>attempt. (attempt, p)) [1 ..< Suc k]\<rparr>"
    using upload_loop_retries [of 0 k u p no_effects] assms(1,2)
    by (simp add: upload_file_def no_effects_def del: upt_Suc)
  show ?thesis
    unfolding a using assms(1,3,4) by (subst upload_loop.simps) (simp del: upt_Suc)
qed

lemma upload_file_exhausted:
  assumes "\<forall>j < max_try. \<exists>e. u j p = Inl e \<and> exn_class_of e = BigdataClientRateLimitError"
  shows "upload_file u p
           = (Inr (p, [], UPLOAD_ERROR),
              \<lparr>calls = 5, slept = [2, 4, 8, 10, 10],
               warnings = [(1, p), (2, p), (3, p), (4, p), (5, p)]\<rparr>)"
proof -
  have a: "upload_file u p
          = upload_loop u p max_try
              \<lparr>calls = max_try,
               slept = map (\<lambda>attempt. min (2 ^ attempt) 10) [1 ..< Suc max_try],
               warnings = map (\<lambda>attempt. (attempt, p)) [1 ..< Suc max_try]\<rparr>"
    using upload_loop_retries [of 0 max_try u p no_effects] assms
    by (simp add: upload_file_def no_effects_def del: upt_Suc)
  show ?thesis
    unfolding a by (subst upload_loop.simps) (simp add: max_try_def upt_rec)
qed

lemma download_analytics_file_done:
  assumes "k < max_try"
    and "\<forall>j < k. d j f t (analytics_filename out path) \<noteq> None"
    and "d k f t (analytics_filename out path) = None"
  shows "download_analytics_file d t f out path
           = (Inr (f, DOWNLOAD_DONE),
              \<lparr>calls = Suc k, slept = map (\<lambda>attempt. min (2 ^ attempt) 10) [1 ..< Suc k],
               warnings = map (\<lambda>attempt. (attempt, f)) [1 ..< Suc k]\<rparr>)"
proof -
  have a: "download_analytics_file d t f out path
          = download_loop d t f out path k
              \<lparr>calls = k, slept = map (\<lambda>attempt. min (2 ^ attempt) 10) [1 ..< Suc k],
               warnings = map (\<lambda>attempt. (attempt, f)) [1 ..< Suc k]\<rparr>"
    using download_loop_retries [of 0 k d f t out path no_effects] assms(1,2)
    by (simp add: download_analytics_file_def no_effects_def del: upt_Suc)
  show ?thesis
    unfolding a using assms(1,3) by (subst download_loop.simps) (simp del: upt_Suc)
qed

lemma download_analytics_file_exhausted:
  assumes "\<forall>j < max_try. d j f t (analytics_filename out path) \<noteq> None"
  shows "download_analytics_file d t f out path
           = (Inr (f, DOWNLOAD_ERROR),
              \<lparr>calls = 5, slept = [2, 4, 8, 10, 10],
               warnings = [(1, f), (2, f), (3, f), (4, f), (5, f)]\<rparr>)"
proof -
  have a: "download_analytics_file d t f out path
          = download_loop d t f out path max_try
              \<lparr>calls = max_try,
               slept = map (\<lambda>attempt. min (2 ^ attempt) 10) [1 ..< Suc max_try],
               warnings = map (\<lambda>attempt. (attempt, f)) [1 ..< Suc max_try]\<rparr>"
    using download_loop_retries [of 0 max_try d f t out path no_effects] assms
    by (simp add: download_analytics_file_def no_effects_def del: upt_Suc)
  show ?thesis
    unfolding a by (subst download_loop.simps) (simp add: max_try_def upt_rec)
qed


lemma upload_file_result:
  "(\<exists>file_id. fst (upload_file u p) = Inr (p, file_id, UPLOAD_DONE)) \<or>
   fst (upload_file u p) = Inr (p, [], UPLOAD_ERROR) \<or>
   (\<exists>e. fst (upload_file u p) = Inl e \<and> exn_class_of e \<noteq> BigdataClientRateLimitError)"
  unfolding upload_file_def by (rule upload_loop_result)

text \<open>
  Claim C2, as stated, fails for \<open>upload_file\<close>: four rate-limit errors followed by
  a connection error are five failed attempts, after the last of which the function
  neither sleeps nor returns the \<open>UPLOAD_ERROR\<close> tuple: it raises.
\<close>

theorem upload_file_five_failures_raise:
  "upload_file
     (\<lambda>attempt file_path.
        if attempt < 4 then Inl (PyExn BigdataClientRateLimitError ''Too many requests'')
        else Inl (PyExn (OtherException ''ConnectionError'') ''connection reset''))
     ''a.pdf''
   = (Inl (PyExn (OtherException ''ConnectionError'') ''connection reset''),
      \<lparr>calls = 5, slept = [2, 4, 8, 10],
       warnings = [(1, ''a.pdf''), (2, ''a.pdf''), (3, ''a.pdf''), (4, ''a.pdf'')]\<rparr>)"
  by (simp add: upload_file_def upload_loop.simps no_effects_def max_try_def)

text \<open>
  Claim C2, amended. Both worker functions call the vendor at most five times and
  never sleep longer than ten seconds. After each attempt that fails with an exception
  the loop catches (any exception in \<open>download_analytics_file\<close>,
  \<open>BigdataClientRateLimitError\<close> in \<open>upload_file\<close>) the function sleeps
  \<open>min(2 ** attempt, 10)\<close> seconds, \<open>attempt\<close> counting from one, logs a warning and
  tries again: when attempt \<open>k\<close> is the first to succeed, it has called the vendor
  \<open>k + 1\<close> times and slept after each of the \<open>k\<close> failures; when all five attempts fail
  that way it returns the tuple with the \<open>ERROR\<close> status, having slept 2, 4, 8, 10 and
  10 seconds.
\<close>

theorem retry_loops_bounded:
  "calls (snd (upload_file u p)) \<le> 5 \<and>
   calls (snd (download_analytics_file d t f out path)) \<le> 5 \<and>
   (\<forall>s \<in> set (slept (snd (upload_file u p))). s \<le> 10) \<and>
   (\<forall>s \<in> set (slept (snd (download_analytics_file d t f out path))). s \<le> 10) \<and>
   (\<forall>k < max_try. \<forall>file_id.
      (\<forall>j < k. \<exists>e. u j p = Inl e \<and> exn_class_of e = BigdataClientRateLimitError) \<and>
      u k p = Inr file_id \<longrightarrow>
      upload_file u p
        = (Inr (p, file_id, UPLOAD_DONE),
           \<lparr>calls = Suc k, slept = map (\<lambda>attempt. min (2 ^ attempt) 10) [1 ..< Suc k],
            warnings = map (\<lambda>attempt. (attempt, p)) [1 ..< Suc k]\<rparr>)) \<and>
   (\<forall>k < max_try.
      (\<forall>j < k. d j f t (analytics_filename out path) \<noteq> None) \<and>
      d k f t (analytics_filename out path) = None \<longrightarrow>
      download_analytics_file d t f out path
        = (Inr (f, DOWNLOAD_DONE),
           \<lparr>calls = Suc k, slept = map (\<lambda>attempt. min (2 ^ attempt) 10) [1 ..< Suc k],
            warnings = map (\<lambda>attempt. (attempt, f)) [1 ..< Suc k]\<rparr>)) \<and>
   ((\<forall>j < max_try. \<exists>e. u j p = Inl e \<and> exn_class_of e = BigdataClientRateLimitError) \<longrightarrow>
      upload_file u p
        = (Inr (p, [], UPLOAD_ERROR),
           \<lparr>calls = 5, slept = [2, 4, 8, 10, 10],
            warnings = [(1, p), (2, p), (3, p), (4, p), (5, p)]\<rparr>)) \<and>
   ((\<forall>j < max_try. d j f t (analytics_filename out path) \<noteq> None) \<longrightarrow>
      download_analytics_file d t f out path
        = (Inr (f, DOWNLOAD_ERROR),
           \<lparr>calls = 5, slept = [2, 4, 8, 10, 10],
            warnings = [(1, f), (2, f), (3, f), (4, f), (5, f)]\<rparr>))"
proof -
  have up_calls: "calls (snd (upload_file u p)) \<le> 5"
    and up_slept: "\<forall>s \<in> set (slept (snd (upload_file u p))). s \<le> 10"
    using upload_loop_bounds [of u p 0 no_effects]
    by (simp_all add: upload_file_def no_effects_def max_try_def)
  have down_calls: "calls (snd (download_analytics_file d t f out path)) \<le> 5"
    and down_slept: "\<forall>s \<in> set (slept (snd (download_analytics_file d t f out path))). s \<le> 10"
    using download_loop_bounds [of d t f out path 0 no_effects]
    by (simp_all add: download_analytics_file_def no_effects_def max_try_def)
  show ?thesis
    using up_calls down_calls up_slept down_slept
      upload_file_done [of _ u p] download_analytics_file_done [of _ d f t out path]
      upload_file_exhausted [of u p] download_analytics_file_exhausted [of d f t out path]
    by blast
qed

theorem retry_loops_bounded_witness:
  "upload_file (\<lambda>attempt file_path.
        if attempt < 2 then Inl (PyExn BigdataClientRateLimitError ''Too many requests'')
        else Inr ''id-1'') ''a.pdf''
     = (Inr (''a.pdf'', ''id-1'', UPLOAD_DONE),
        \<lparr>calls = 3, slept = [2, 4], warnings = [(1, ''a.pdf''), (2, ''a.pdf'')]\<rparr>) \<and>
   download_analytics_file
     (\<lambda>attempt file_id timeout filename.
        if attempt < 1 then Some (PyExn (OtherException ''TimeoutError'') ''timed out'')
        else None)
     60 ''id-1'' ''out'' ''/data/a.pdf''
     = (Inr (''id-1'', DOWNLOAD_DONE),
        \<lparr>calls = 2, slept = [2], warnings = [(1, ''id-1'')]\<rparr>) \<and>
   upload_file (\<lambda>attempt file_path. Inl (PyExn BigdataClientRateLimitError ''Too many requests''))
     ''a.pdf''
     = (Inr (''a.pdf'', [], UPLOAD_ERROR),
        \<lparr>calls = 5, slept = [2, 4, 8, 10, 10],
         warnings = [(1, ''a.pdf''), (2, ''a.pdf''), (3, ''a.pdf''), (4, ''a.pdf''),
                     (5, ''a.pdf'')]\<rparr>) \<and>
   download_analytics_file
     (\<lambda>attempt file_id timeout filename. Some (PyExn (OtherException ''TimeoutError'') ''timed out''))
     60 ''id-1'' ''out'' ''/data/a.pdf''
     = (Inr (''id-1'', DOWNLOAD_ERROR),
        \<lparr>calls = 5, slept = [2, 4, 8, 10, 10],
         warnings = [(1, ''id-1''), (2, ''id-1''), (3, ''id-1''), (4, ''id-1''),
                     (5, ''id-1'')]\<rparr>)"
proof -
  let ?u = "\<lambda>(attempt::nat) (file_path::string).
              if attempt < 2 then Inl (PyExn BigdataClientRateLimitError ''Too many requests'')
              else (Inr ''id-1'' :: pyexn + string)"
  let ?v = "\<lambda>(attempt::nat) (file_path::string).
              (Inl (PyExn BigdataClientRateLimitError ''Too many requests'') :: pyexn + string)"
  let ?c = "\<lambda>(attempt::nat) (file_id::string) (timeout::int) (filename::string).
              if attempt < 1 then Some (PyExn (OtherException ''TimeoutError'') ''timed out'')
              else None"
  let ?d = "\<lambda>(attempt::nat) (file_id::string) (timeout::int) (filename::string).
              Some (PyExn (OtherException ''TimeoutError'') ''timed out'')"
  note some = retry_loops_bounded [of ?u "''a.pdf''" ?c 60 "''id-1''" "''out''" "''/data/a.pdf''"]
  note all = retry_loops_bounded [of ?v "''a.pdf''" ?d 60 "''id-1''" "''out''" "''/data/a.pdf''"]
  note up_done = some [THEN conjunct2, THEN conjunct2, THEN conjunct2, THEN conjunct2,
      THEN conjunct1, rule_format, of 2 "''id-1''"]
  note down_done = some [THEN conjunct2, THEN conjunct2, THEN conjunct2, THEN conjunct2,
      THEN conjunct2, THEN conjunct1, rule_format, of 1]
  note up_all = all [THEN conjunct2, THEN conjunct2, THEN conjunct2, THEN conjunct2,
      THEN conjunct2, THEN conjunct2, THEN conjunct1]
  note down_all = all [THEN conjunct2, THEN conjunct2, THEN conjunct2, THEN conjunct2,
      THEN conjunct2, THEN conjunct2, THEN conjunct2]
  have 1: "upload_file ?u ''a.pdf''
     = (Inr (''a.pdf'', ''id-1'', UPLOAD_DONE),
        \<lparr>calls = 3, slept = [2, 4], warnings = [(1, ''a.pdf''), (2, ''a.pdf'')]\<rparr>)"
    using up_done by (simp add: max_try_def upt_rec)
  have 2: "download_analytics_file ?c 60 ''id-1'' ''out'' ''/data/a.pdf''
     = (Inr (''id-1'', DOWNLOAD_DONE),
        \<lparr>calls = 2, slept = [2], warnings = [(1, ''id-1'')]\<rparr>)"
    using down_done by (simp add: max_try_def upt_rec)
  have 3: "upload_file ?v ''a.pdf''
     = (Inr (''a.pdf'', [], UPLOAD_ERROR),
        \<lparr>calls = 5, slept = [2, 4, 8, 10, 10],
         warnings = [(1, ''a.pdf''), (2, ''a.pdf''), (3, ''a.pdf''), (4, ''a.pdf''),
                     (5, ''a.pdf'')]\<rparr>)"
    using up_all by simp
  have 4: "download_analytics_file ?d 60 ''id-1'' ''out'' ''/data/a.pdf''
     = (Inr (''id-1'', DOWNLOAD_ERROR),
        \<lparr>calls = 5, slept = [2, 4, 8, 10, 10],
         warnings = [(1, ''id-1''), (2, ''id-1''), (3, ''id-1''), (4, ''id-1''),
                     (5, ''id-1'')]\<rparr>)"
    using down_all by simp
  show ?thesis
    using 1 2 3 4 by (intro conjI)
qed

text \<open>
  Claim C5, as stated, fails: \<open>upload_file\<close> has \<open>except BigdataClientRateLimitError\<close>,
  not \<open>except Exception\<close>. A connection error at the first attempt leaves the function
  at once: one call, no sleep, no warning, no retry.
\<close>

theorem upload_file_propagates_other_exception:
  "upload_file
     (\<lambda>attempt file_path. Inl (PyExn (OtherException ''ConnectionError'') ''connection reset''))
     ''a.pdf''
   = (Inl (PyExn (OtherException ''ConnectionError'') ''connection reset''),
      \<lparr>calls = 1, slept = [], warnings = []\<rparr>)"
  by (simp add: upload_file_def upload_loop.simps no_effects_def max_try_def)

text \<open>
  Claim C5, amended. The two retry loops do not handle errors alike.
  \<open>download_analytics_file\<close> catches every exception of the vendor calls: it never
  raises, and each failed attempt, whatever was raised, is followed by a sleep, a
  logged warning and, up to the fifth attempt, another try. \<open>upload_file\<close> catches
  \<open>BigdataClientRateLimitError\<close> only: a rate-limit error is followed by a sleep, a
  logged warning and another try, and any other exception leaves \<open>upload_file\<close> at the
  attempt that raised it, with no sleep and no warning for it. A rate-limit error is
  never what \<open>upload_file\<close> raises.
\<close>

theorem batch_error_handling:
  "(fst (download_analytics_file d t f out path) = Inr (f, DOWNLOAD_DONE) \<or>
    fst (download_analytics_file d t f out path) = Inr (f, DOWNLOAD_ERROR)) \<and>
   (\<forall>k < max_try.
      (\<forall>j < k. d j f t (analytics_filename out path) \<noteq> None) \<and>
      d k f t (analytics_filename out path) = None \<longrightarrow>
      download_analytics_file d t f out path
        = (Inr (f, DOWNLOAD_DONE),
           \<lparr>calls = Suc k, slept = map (\<lambda>attempt. min (2 ^ attempt) 10) [1 ..< Suc k],
            warnings = map (\<lambda>attempt. (attempt, f)) [1 ..< Suc k]\<rparr>)) \<and>
   ((\<forall>j < max_try. d j f t (analytics_filename out path) \<noteq> None) \<longrightarrow>
      download_analytics_file d t f out path
        = (Inr (f, DOWNLOAD_ERROR),
           \<lparr>calls = 5, slept = [2, 4, 8, 10, 10],
            warnings = [(1, f), (2, f), (3, f), (4, f), (5, f)]\<rparr>)) \<and>
   (\<forall>k < max_try. \<forall>file_id.
      (\<forall>j < k. \<exists>e. u j p = Inl e \<and> exn_class_of e = BigdataClientRateLimitError) \<and>
      u k p = Inr file_id \<longrightarrow>
      upload_file u p
        = (Inr (p, file_id, UPLOAD_DONE),
           \<lparr>calls = Suc k, slept = map (\<lambda>attempt. min (2 ^ attempt) 10) [1 ..< Suc k],
            warnings = map (\<lambda>attempt. (attempt, p)) [1 ..< Suc k]\<rparr>)) \<and>
   (\<forall>k < max_try. \<forall>e.
      (\<forall>j < k. \<exists>e'. u j p = Inl e' \<and> exn_class_of e' = BigdataClientRateLimitError) \<and>
      u k p = Inl e \<and> exn_class_of e \<noteq> BigdataClientRateLimitError \<longrightarrow>
      upload_file u p
        = (Inl e,
           \<lparr>calls = Suc k, slept = map (\<lambda>attempt. min (2 ^ attempt) 10) [1 ..< Suc k],
            warnings = map (\<lambda>attempt. (attempt, p)) [1 ..< Suc k]\<rparr>)) \<and>
   (\<forall>e. fst (upload_file u p) = Inl e \<longrightarrow> exn_class_of e \<noteq> BigdataClientRateLimitError)"
proof -
  have never: "fst (download_analytics_file d t f out path) = Inr (f, DOWNLOAD_DONE) \<or>
               fst (download_analytics_file d t f out path) = Inr (f, DOWNLOAD_ERROR)"
    unfolding download_analytics_file_def by (rule download_loop_returns)
  have not_rate: "exn_class_of e \<noteq> BigdataClientRateLimitError"
    if "fst (upload_file u p) = Inl e" for e
    using upload_file_result [of u p] that by auto
  show ?thesis
    using never not_rate
      upload_file_done [of _ u p] upload_file_raises [of _ u p]
      download_analytics_file_done [of _ d f t out path]
      download_analytics_file_exhausted [of d f t out path]
    by blast
qed

theorem batch_error_handling_witness:
  "upload_file
     (\<lambda>attempt file_path.
        if attempt < 1 then Inl (PyExn BigdataClientRateLimitError ''Too many requests'')
        else Inl (PyExn (OtherException ''ConnectionError'') ''connection reset''))
     ''a.pdf''
     = (Inl (PyExn (OtherException ''ConnectionError'') ''connection reset''),
        \<lparr>calls = 2, slept = [2], warnings = [(1, ''a.pdf'')]\<rparr>) \<and>
   download_analytics_file
     (\<lambda>attempt file_id timeout filename.
        if attempt < 1 then Some (PyExn ValueError ''bad status'')
        else if attempt < 2 then Some (PyExn (OtherException ''ConnectionError'') ''connection reset'')
        else None)
     60 ''id-1'' ''out'' ''/data/a.pdf''
     = (Inr (''id-1'', DOWNLOAD_DONE),
        \<lparr>calls = 3, slept = [2, 4], warnings = [(1, ''id-1''), (2, ''id-1'')]\<rparr>)"
proof -
  let ?u = "\<lambda>(attempt::nat) (file_path::string).
        if attempt < 1 then Inl (PyExn BigdataClientRateLimitError ''Too many requests'')
        else (Inl (PyExn (OtherException ''ConnectionError'') ''connection reset'')
               :: pyexn + string)"
  let ?d = "\<lambda>(attempt::nat) (file_id::string) (timeout::int) (filename::string).
        if attempt < 1 then Some (PyExn ValueError ''bad status'')
        else if attempt < 2 then Some (PyExn (OtherException ''ConnectionError'') ''connection reset'')
        else None"
  note run = batch_error_handling [of ?d 60 "''id-1''" "''out''" "''/data/a.pdf''" ?u "''a.pdf''"]
  note down = run [THEN conjunct2, THEN conjunct1, rule_format, of 2]
  note up = run [THEN conjunct2, THEN conjunct2, THEN conjunct2, THEN conjunct2,
      THEN conjunct1, rule_format, of 1
        "PyExn (OtherException ''ConnectionError'') ''connection reset''"]
  have 1: "upload_file ?u ''a.pdf''
     = (Inl (PyExn (OtherException ''ConnectionError'') ''connection reset''),
        \<lparr>calls = 2, slept = [2], warnings = [(1, ''a.pdf'')]\<rparr>)"
    using up by (simp add: max_try_def upt_rec)
  have 2: "download_analytics_file ?d 60 ''id-1'' ''out'' ''/data/a.pdf''
     = (Inr (''id-1'', DOWNLOAD_DONE),
        \<lparr>calls = 3, slept = [2, 4], warnings = [(1, ''id-1''), (2, ''id-1'')]\<rparr>)"
    using down by (simp add: max_try_def upt_rec)
  show ?thesis
    using 1 2 by (intro conjI)
qed






end
